theory Spec2Isabelle
  imports Complex_Main "HOL-Library.AList"
begin

section \<open>Order placement service: data model\<close>

text \<open>
  The development embeds \<^verbatim>\<open>src/services/order_service.py\<close> (class
  \<^verbatim>\<open>OrderService\<close>) and the request schema of
  \<^verbatim>\<open>src/schemas/order_schema.py\<close>.

  Python integers are unbounded and are modelled by \<open>int\<close>. Prices, totals and the
  discount percentage are Python floats; they are modelled by \<open>real\<close>, so the results
  below are about the arithmetic the code writes down, without IEEE rounding. Time stamps
  are natural numbers. The two enumerations \<^verbatim>\<open>DeliveryMethod\<close> and
  \<^verbatim>\<open>Status\<close> are only carried through by the service and are kept as the names
  of their members.
\<close>

type_synonym DeliveryMethod = string
type_synonym Status = string
type_synonym PaymentType = string
type_synonym datetime = nat

text \<open>\<^verbatim>\<open>OrderItemInput\<close> and \<^verbatim>\<open>OrderSchema\<close>, field by field.\<close>

record OrderItemInput =
  product_id :: int
  quantity :: int

record OrderSchema =
  date :: "datetime option"
  total :: real
  delivery_method :: DeliveryMethod
  status :: Status
  client_id :: int
  bill_id :: "int option"
  items :: "OrderItemInput list option"
  discount_pct :: "real option"

text \<open>
  The mapped classes. Only the attributes the service reads or writes are kept. A product's
  \<^verbatim>\<open>price\<close> and \<^verbatim>\<open>stock\<close> may be \<^verbatim>\<open>None\<close> (the service tests
  for it), and so may a bill's \<^verbatim>\<open>bill_number\<close> (the service catches the
  \<^verbatim>\<open>TypeError\<close> of \<^verbatim>\<open>int(None)\<close>).
\<close>

record ProductModel =
  price :: "real option"
  stock :: "int option"

record BillModel =
  bill_number :: "string option"
  discount :: real
  bill_date :: datetime
  bill_total :: real
  payment_type :: PaymentType
  bill_client_id :: int

record OrderModel =
  id_key :: int
  order_date :: "datetime option"
  order_total :: real
  order_delivery_method :: DeliveryMethod
  order_status :: Status
  order_client_id :: int
  order_bill_id :: "int option"

record OrderDetailModel =
  od_order_id :: int
  od_product_id :: int
  od_quantity :: int
  od_price :: "real option"

text \<open>
  The tables. Clients are only looked up by id. Products are looked up by primary key.
  Bills and orders are also enumerated (by the number allocator), so they are kept as rows:
  bills as pairs of primary key and row, orders with their explicit \<open>id_key\<close>.
\<close>

record store =
  clients :: "int set"
  products :: "int \<rightharpoonup> ProductModel"
  bills :: "(int \<times> BillModel) list"
  orders :: "OrderModel list"
  order_details :: "OrderDetailModel list"

text \<open>
  The SQLAlchemy session: \<open>db\<close> is what has been committed, \<open>tx\<close> is what the session
  sees (the committed rows with the pending changes of the open transaction).
  \<^verbatim>\<open>commit()\<close> makes the pending state durable, \<^verbatim>\<open>rollback()\<close> discards it.
\<close>

record session =
  db :: store
  tx :: store

definition commit :: "session \<Rightarrow> session" where
  "commit s = s\<lparr>db := tx s\<rparr>"

definition rollback :: "session \<Rightarrow> session" where
  "rollback s = s\<lparr>tx := db s\<rparr>"

text \<open>
  Exceptions are values. \<open>InstanceNotFoundError e k\<close> stands for the message
  \<^verbatim>\<open>"<e> with id <k> not found"\<close>; \<open>ValueError p a q\<close> stands for the message
  \<^verbatim>\<open>"No hay stock suficiente ..."\<close> with the product, the available stock printed and
  the requested quantity. \<open>KeyError\<close> and \<open>TypeError\<close> are what a missing key of
  \<^verbatim>\<open>product_cache\<close> and \<^verbatim>\<open>None -= int\<close> raise. Every call into the storage
  layer may raise; which ones do is a parameter of a run (\<open>faults\<close>), and the exception is
  \<open>StorageFailure\<close> of the step that raised. The steps, in the order of the source: the
  client lookup, \<^verbatim>\<open>session.get(ProductModel, ...)\<close>, the two queries of the
  allocator, the flush after the order is added, \<^verbatim>\<open>session.get(BillModel, ...)\<close>,
  the flush after the bill is added or changed, the commit, and
  \<^verbatim>\<open>OrderSchema.model_validate\<close> in the return statement.
\<close>

datatype entity = Client | Product | Bill | Order

datatype step =
  ClientFind | ProductGet | OrderQuery | BillQuery
  | FlushOrder | BillGet | FlushBill | Commit | ModelValidate

datatype error =
  InstanceNotFoundError entity int
  | ValueError int "int option" int
  | KeyError int
  | TypeError
  | StorageFailure step

datatype log_level = INFO | WARNING | ERROR

text \<open>
  The environment of one call: the storage steps that raise, and the two readings of
  \<^verbatim>\<open>datetime.utcnow()\<close>.
\<close>

record env =
  faults :: "step set"
  utcnow_order :: datetime
  utcnow_bill :: datetime

section \<open>Integers as text: \<^verbatim>\<open>str\<close> and \<^verbatim>\<open>int\<close>\<close>

text \<open>
  \<^verbatim>\<open>str(n)\<close> for an integer: a minus sign for a negative number, then the decimal
  digits without leading zeros.
\<close>

definition digit_char :: "nat \<Rightarrow> char" where
  "digit_char d = ''0123456789'' ! d"

fun str_nat :: "nat \<Rightarrow> string" where
  "str_nat n = (if n < 10 then [digit_char n] else str_nat (n div 10) @ [digit_char (n mod 10)])"

declare str_nat.simps [simp del]

definition str :: "int \<Rightarrow> string" where
  "str i = (if i < 0 then CHR ''-'' # str_nat (nat (- i)) else str_nat (nat i))"

text \<open>
  \<^verbatim>\<open>int(s)\<close> for a string, base ten: white space is stripped at both ends, one
  sign may come first, then digits, where single underscores may stand between two digits.
  Anything else raises \<^verbatim>\<open>ValueError\<close> (\<open>None\<close> here). Strings are ASCII; the
  interpreter's limit on the number of digits of a conversion is far above any database
  integer and is left out.
\<close>

definition is_space :: "char \<Rightarrow> bool" where
  "is_space c = (let k = (of_char c :: nat) in (9 \<le> k \<and> k \<le> 13) \<or> (28 \<le> k \<and> k \<le> 32))"

definition is_digit :: "char \<Rightarrow> bool" where
  "is_digit c = (let k = (of_char c :: nat) in 48 \<le> k \<and> k \<le> 57)"

definition digit_val :: "char \<Rightarrow> nat" where
  "digit_val c = of_char c - 48"

definition strip :: "string \<Rightarrow> string" where
  "strip s = rev (dropWhile is_space (rev (dropWhile is_space s)))"

fun digits_from :: "nat \<Rightarrow> string \<Rightarrow> nat option" where
  "digits_from acc [] = Some acc"
| "digits_from acc (c # cs) =
     (if is_digit c then digits_from (10 * acc + digit_val c) cs
      else if c = CHR ''_'' then
        (case cs of
           [] \<Rightarrow> None
         | d # ds \<Rightarrow> if is_digit d then digits_from (10 * acc + digit_val d) ds else None)
      else None)"

fun parse_nat :: "string \<Rightarrow> nat option" where
  "parse_nat [] = None"
| "parse_nat (c # cs) = (if is_digit c then digits_from (digit_val c) cs else None)"

definition py_int :: "string \<Rightarrow> int option" where
  "py_int s =
     (case strip s of
        [] \<Rightarrow> None
      | c # cs \<Rightarrow>
          if c = CHR ''-'' then map_option (\<lambda>n. - int n) (parse_nat cs)
          else if c = CHR ''+'' then map_option int (parse_nat cs)
          else map_option int (parse_nat (c # cs)))"

section \<open>The shared number allocator\<close>

text \<open>
  \<^verbatim>\<open>OrderService._generate_next_order_number\<close>. The first query returns the largest
  order id, or \<^verbatim>\<open>None\<close> for an empty table; the second returns every bill number.
  The loop over the bill numbers skips a number that \<^verbatim>\<open>int\<close> rejects. An exception
  of either query is caught by the outer handler, which logs a warning; the function then
  returns \<^verbatim>\<open>max_val + 1\<close> with whatever \<^verbatim>\<open>max_val\<close> is at that point.
  The result is paired with the log records written.
\<close>

definition max_order_id :: "OrderModel list \<Rightarrow> int option" where
  "max_order_id os = (case os of [] \<Rightarrow> None | x # xs \<Rightarrow> Some (fold max (map id_key xs) (id_key x)))"

fun scan_bill_numbers :: "string option list \<Rightarrow> int \<Rightarrow> int" where
  "scan_bill_numbers [] max_val = max_val"
| "scan_bill_numbers (bn # rows) max_val =
     (case bn of
        None \<Rightarrow> scan_bill_numbers rows max_val
      | Some s \<Rightarrow>
          (case py_int s of
             None \<Rightarrow> scan_bill_numbers rows max_val
           | Some num \<Rightarrow> scan_bill_numbers rows (if num > max_val then num else max_val)))"

definition generate_next_order_number :: "env \<Rightarrow> store \<Rightarrow> int \<times> log_level list" where
  "generate_next_order_number e st =
     (let max_val = 999 in
      if OrderQuery \<in> faults e then (max_val + 1, [WARNING])
      else
        let max_order = max_order_id (orders st);
            max_val = (case max_order of
                         None \<Rightarrow> max_val
                       | Some m \<Rightarrow> if m \<noteq> 0 \<and> m > max_val then m else max_val)
        in if BillQuery \<in> faults e then (max_val + 1, [WARNING])
           else (scan_bill_numbers (map (\<lambda>(k, b). bill_number b) (bills st)) max_val + 1, []))"

section \<open>Placing an order: \<^verbatim>\<open>OrderService.save\<close>\<close>

text \<open>\<^verbatim>\<open>product.price or 0\<close>: an absent price and a price of zero both give zero.\<close>

definition price_or_zero :: "ProductModel \<Rightarrow> real" where
  "price_or_zero product = (case price product of None \<Rightarrow> 0 | Some x \<Rightarrow> if x = 0 then 0 else x)"

text \<open>
  The first loop over the items (validate stock and compute the subtotal). It runs before
  the \<^verbatim>\<open>try\<close> block of \<^verbatim>\<open>save\<close>. A \<^verbatim>\<open>ProductModel\<close> instance is a
  mutable object that the session holds once per primary key, so
  \<^verbatim>\<open>product_cache\<close> maps a product id to a reference: the key under which the
  session's state holds the object. Nothing is copied into the cache.
\<close>

fun check_items ::
  "env \<Rightarrow> store \<Rightarrow> OrderItemInput list \<Rightarrow> (int \<rightharpoonup> int) \<Rightarrow> real \<Rightarrow> error + (int \<rightharpoonup> int) \<times> real" where
  "check_items e st [] product_cache subtotal = Inr (product_cache, subtotal)"
| "check_items e st (item # rest) product_cache subtotal =
     (if ProductGet \<in> faults e then Inl (StorageFailure ProductGet)
      else
        (case products st (product_id item) of
           None \<Rightarrow> Inl (InstanceNotFoundError Product (product_id item))
         | Some product \<Rightarrow>
             (case stock product of
                None \<Rightarrow> Inl (ValueError (product_id item) None (quantity item))
              | Some n \<Rightarrow>
                  if n < quantity item
                  then Inl (ValueError (product_id item) (Some n) (quantity item))
                  else check_items e st rest
                         (product_cache(product_id item \<mapsto> product_id item))
                         (subtotal + price_or_zero product * real_of_int (quantity item)))))"

text \<open>
  The second loop (update stock), inside the \<^verbatim>\<open>try\<close> block. The product is read
  through the cached reference, its stock is decremented in place, and the decremented
  stock is tested. The state at the point of a raise is returned with the error. A
  reference always denotes a live object, so the branch for a missing object only keeps
  the function total.
\<close>

fun update_stock ::
  "(int \<rightharpoonup> int) \<Rightarrow> store \<Rightarrow> OrderItemInput list \<Rightarrow> error option \<times> store" where
  "update_stock product_cache st [] = (None, st)"
| "update_stock product_cache st (item # rest) =
     (case product_cache (product_id item) of
        None \<Rightarrow> (Some (KeyError (product_id item)), st)
      | Some h \<Rightarrow>
          (case products st h of
             None \<Rightarrow> (Some (KeyError h), st)
           | Some product \<Rightarrow>
               (case stock product of
                  None \<Rightarrow> (Some TypeError, st)
                | Some n \<Rightarrow>
                    let st' = st\<lparr>products :=
                                (products st)(h \<mapsto> product\<lparr>stock := Some (n - quantity item)\<rparr>)\<rparr>
                    in if n - quantity item < 0
                       then (Some (ValueError h (Some (n - quantity item)) (quantity item)), st')
                       else update_stock product_cache st' rest)))"

text \<open>
  Create or update the bill so that its number is the allocated number. A new bill gets
  its primary key from the database at the flush; it is taken to be one above the largest
  key in the table.
\<close>

definition next_bill_id :: "(int \<times> BillModel) list \<Rightarrow> int" where
  "next_bill_id rows = fold max (map fst rows) 0 + 1"

definition link_bill ::
  "env \<Rightarrow> store \<Rightarrow> OrderSchema \<Rightarrow> real \<Rightarrow> real \<Rightarrow> int \<Rightarrow> (error + int) \<times> store" where
  "link_bill e st schema discount_amount tot next_number =
     (case bill_id schema of
        None \<Rightarrow>
          let bill_model = \<lparr>bill_number = Some (str next_number), discount = discount_amount,
                            bill_date = utcnow_bill e, bill_total = tot,
                            payment_type = ''CASH'', bill_client_id = client_id schema\<rparr>
          in if FlushBill \<in> faults e then (Inl (StorageFailure FlushBill), st)
             else let k = next_bill_id (bills st)
                  in (Inr k, st\<lparr>bills := bills st @ [(k, bill_model)]\<rparr>)
      | Some b \<Rightarrow>
          if BillGet \<in> faults e then (Inl (StorageFailure BillGet), st)
          else
            (case map_of (bills st) b of
               None \<Rightarrow> (Inl (InstanceNotFoundError Bill b), st)
             | Some bill \<Rightarrow>
                 let st' = st\<lparr>bills :=
                             AList.update b (bill\<lparr>bill_number := Some (str next_number)\<rparr>) (bills st)\<rparr>
                 in if FlushBill \<in> faults e then (Inl (StorageFailure FlushBill), st')
                    else (Inr b, st')))"

text \<open>The third loop (create order details): one row per item, with the product's raw price.\<close>

fun create_details ::
  "(int \<rightharpoonup> int) \<Rightarrow> int \<Rightarrow> store \<Rightarrow> OrderItemInput list \<Rightarrow> error option \<times> store" where
  "create_details product_cache oid st [] = (None, st)"
| "create_details product_cache oid st (item # rest) =
     (case product_cache (product_id item) of
        None \<Rightarrow> (Some (KeyError (product_id item)), st)
      | Some h \<Rightarrow>
          (case products st h of
             None \<Rightarrow> (Some (KeyError h), st)
           | Some product \<Rightarrow>
               create_details product_cache oid
                 (st\<lparr>order_details := order_details st @
                    [\<lparr>od_order_id = oid, od_product_id = product_id item,
                      od_quantity = quantity item, od_price = price product\<rparr>]\<rparr>)
                 rest))"

text \<open>
  The pieces of \<^verbatim>\<open>save\<close> between the loops: \<^verbatim>\<open>schema.items or []\<close>, the
  discount (\<^verbatim>\<open>schema.discount_pct or 0\<close>, then the conditional expression), the date
  (\<^verbatim>\<open>schema.date or datetime.utcnow()\<close>), and the \<^verbatim>\<open>OrderModel\<close> built
  with the explicit id.
\<close>

definition items_or_empty :: "OrderSchema \<Rightarrow> OrderItemInput list" where
  "items_or_empty schema = (case items schema of None \<Rightarrow> [] | Some xs \<Rightarrow> xs)"

definition discount_amount_of :: "OrderSchema \<Rightarrow> real \<Rightarrow> real" where
  "discount_amount_of schema subtotal =
     (let pct = (case discount_pct schema of None \<Rightarrow> 0 | Some d \<Rightarrow> if d = 0 then 0 else d)
      in if pct > 0 then subtotal * pct / 100 else 0)"

definition date_or_now :: "env \<Rightarrow> OrderSchema \<Rightarrow> datetime" where
  "date_or_now e schema = (case date schema of None \<Rightarrow> utcnow_order e | Some d \<Rightarrow> d)"

definition new_order :: "env \<Rightarrow> OrderSchema \<Rightarrow> real \<Rightarrow> int \<Rightarrow> OrderModel" where
  "new_order e schema tot next_number =
     \<lparr>id_key = next_number, order_date = Some (date_or_now e schema), order_total = tot,
      order_delivery_method = delivery_method schema, order_status = status schema,
      order_client_id = client_id schema, order_bill_id = None\<rparr>"

text \<open>
  The body of the \<^verbatim>\<open>try\<close> block: update stock, insert the order under the
  allocated id, resolve the bill, link the order to it, insert the details, commit, and
  build the returned order. The return statement is inside the block and after the commit:
  if building the returned schema raises, the handler runs when the commit is already done.
  The invalidation of the product cache after the commit is wrapped in its own handler and
  has no effect on the session; it is left out.
\<close>

definition save_try ::
  "env \<Rightarrow> session \<Rightarrow> OrderSchema \<Rightarrow> OrderItemInput list \<Rightarrow> (int \<rightharpoonup> int) \<Rightarrow> real \<Rightarrow> real
     \<Rightarrow> int \<Rightarrow> (error + OrderModel) \<times> session" where
  "save_try e s schema item_list product_cache discount_amount tot next_number =
     (case update_stock product_cache (tx s) item_list of
        (Some err, st1) \<Rightarrow> (Inl err, s\<lparr>tx := st1\<rparr>)
      | (None, st1) \<Rightarrow>
          let order_model = new_order e schema tot next_number;
              st2 = st1\<lparr>orders := orders st1 @ [order_model]\<rparr>
          in if FlushOrder \<in> faults e then (Inl (StorageFailure FlushOrder), s\<lparr>tx := st2\<rparr>)
             else
               (case link_bill e st2 schema discount_amount tot next_number of
                  (Inl err, st3) \<Rightarrow> (Inl err, s\<lparr>tx := st3\<rparr>)
                | (Inr b, st3) \<Rightarrow>
                    let linked = order_model\<lparr>order_bill_id := Some b\<rparr>;
                        st4 = st3\<lparr>orders := orders st1 @ [linked]\<rparr>
                    in (case create_details product_cache (id_key linked) st4 item_list of
                          (Some err, st5) \<Rightarrow> (Inl err, s\<lparr>tx := st5\<rparr>)
                        | (None, st5) \<Rightarrow>
                            if Commit \<in> faults e
                            then (Inl (StorageFailure Commit), s\<lparr>tx := st5\<rparr>)
                            else
                              let s' = commit (s\<lparr>tx := st5\<rparr>)
                              in if ModelValidate \<in> faults e
                                 then (Inl (StorageFailure ModelValidate), s')
                                 else (Inr linked, s'))))"

text \<open>
  \<^verbatim>\<open>save\<close>. The client lookup and the first loop run before the
  \<^verbatim>\<open>try\<close> block; an exception there leaves the method directly. The handler of the
  \<^verbatim>\<open>try\<close> block rolls the session back and re-raises. The assignments to the
  caller's schema object (\<^verbatim>\<open>total\<close>, \<^verbatim>\<open>date\<close>, \<^verbatim>\<open>bill_id\<close>) are
  not returned; the log records are dropped.
\<close>

definition save :: "env \<Rightarrow> session \<Rightarrow> OrderSchema \<Rightarrow> (error + OrderModel) \<times> session" where
  "save e s schema =
     (if ClientFind \<in> faults e then (Inl (StorageFailure ClientFind), s)
      else if client_id schema \<notin> clients (tx s)
      then (Inl (InstanceNotFoundError Client (client_id schema)), s)
      else
        let item_list = items_or_empty schema
        in (case check_items e (tx s) item_list Map.empty 0 of
              Inl err \<Rightarrow> (Inl err, s)
            | Inr (product_cache, subtotal) \<Rightarrow>
                let discount_amount = discount_amount_of schema subtotal;
                    tot = max (subtotal - discount_amount) 0;
                    next_number = fst (generate_next_order_number e (tx s))
                in (case save_try e s schema item_list product_cache discount_amount tot
                           next_number of
                      (Inl err, s1) \<Rightarrow> (Inl err, rollback s1)
                    | (Inr r, s1) \<Rightarrow> (Inr r, s1))))"

section \<open>Updating an order: \<^verbatim>\<open>OrderService.update\<close>\<close>

text \<open>
  Modelled from the spec: \<^verbatim>\<open>BaseServiceImpl.update\<close>, the generic update that
  \<^verbatim>\<open>OrderService.update\<close> delegates to, is not among the sources. The spec
  describes it as a field-by-field overwrite; the docstring of
  \<^verbatim>\<open>OrderService.update\<close> adds that a missing order raises
  \<^verbatim>\<open>InstanceNotFoundError\<close>. Every column of the order that the schema carries
  is overwritten with the schema's value.
\<close>

definition base_update :: "session \<Rightarrow> int \<Rightarrow> OrderSchema \<Rightarrow> (error + OrderModel) \<times> session" where
  "base_update s k schema =
     (case find (\<lambda>order. id_key order = k) (orders (tx s)) of
        None \<Rightarrow> (Inl (InstanceNotFoundError Order k), s)
      | Some order \<Rightarrow>
          let order' = order\<lparr>order_date := date schema, order_total := total schema,
                             order_delivery_method := delivery_method schema,
                             order_status := status schema,
                             order_client_id := client_id schema,
                             order_bill_id := bill_id schema\<rparr>
          in (Inr order',
              s\<lparr>tx := (tx s)\<lparr>orders :=
                    map (\<lambda>row. if id_key row = k then order' else row) (orders (tx s))\<rparr>\<rparr>))"

text \<open>
  \<^verbatim>\<open>OrderService.update\<close>. The schema declares \<^verbatim>\<open>client_id\<close> as a required
  integer, so the test \<^verbatim>\<open>client_id is not None\<close> always passes.
\<close>

definition update :: "env \<Rightarrow> session \<Rightarrow> int \<Rightarrow> OrderSchema \<Rightarrow> (error + OrderModel) \<times> session" where
  "update e s k schema =
     (if ClientFind \<in> faults e then (Inl (StorageFailure ClientFind), s)
      else if client_id schema \<notin> clients (tx s)
      then (Inl (InstanceNotFoundError Client (client_id schema)), s)
      else
        (case bill_id schema of
           None \<Rightarrow> base_update s k schema
         | Some b \<Rightarrow>
             if BillGet \<in> faults e then (Inl (StorageFailure BillGet), s)
             else if map_of (bills (tx s)) b = None
             then (Inl (InstanceNotFoundError Bill b), s)
             else base_update s k schema))"

section \<open>Functions used to state the properties\<close>

text \<open>
  These follow the words of the specification, not the code: the total quantity an item
  list requests of one product, the subtotal as a sum over the items (an absent price
  counting as zero), the detail row of an item with the product's price field as it is,
  and the stock value a store holds for a product.
\<close>

definition requested :: "OrderItemInput list \<Rightarrow> int \<Rightarrow> int" where
  "requested its p = sum_list (map quantity (filter (\<lambda>it. product_id it = p) its))"

definition spec_subtotal :: "store \<Rightarrow> OrderItemInput list \<Rightarrow> real" where
  "spec_subtotal st its =
     sum_list (map (\<lambda>it. (case products st (product_id it) of
                             None \<Rightarrow> 0
                           | Some product \<Rightarrow> (case price product of None \<Rightarrow> 0 | Some x \<Rightarrow> x))
                          * real_of_int (quantity it)) its)"

definition detail_of :: "store \<Rightarrow> int \<Rightarrow> OrderItemInput \<Rightarrow> OrderDetailModel" where
  "detail_of st oid it =
     \<lparr>od_order_id = oid, od_product_id = product_id it, od_quantity = quantity it,
      od_price = (case products st (product_id it) of None \<Rightarrow> None | Some product \<Rightarrow> price product)\<rparr>"

definition stock_at :: "store \<Rightarrow> int \<Rightarrow> int option" where
  "stock_at st p = (case products st p of None \<Rightarrow> None | Some product \<Rightarrow> stock product)"

section \<open>Example data\<close>

text \<open>
  A small shop: one client, a product with price and stock, a product without a price and
  a product without a stock value. The session \<open>fresh\<close> has nothing pending.
\<close>

definition no_faults :: env where
  "no_faults = \<lparr>faults = {}, utcnow_order = 0, utcnow_bill = 0\<rparr>"

definition bill_query_fails :: env where
  "bill_query_fails = \<lparr>faults = {BillQuery}, utcnow_order = 0, utcnow_bill = 0\<rparr>"

definition order_query_fails :: env where
  "order_query_fails = \<lparr>faults = {OrderQuery}, utcnow_order = 0, utcnow_bill = 0\<rparr>"

definition shop :: store where
  "shop = \<lparr>clients = {1},
           products = [7 \<mapsto> \<lparr>price = Some 5, stock = Some 10\<rparr>,
                       8 \<mapsto> \<lparr>price = None, stock = Some 3\<rparr>,
                       9 \<mapsto> \<lparr>price = Some 2, stock = None\<rparr>],
           bills = [], orders = [], order_details = []\<rparr>"

definition fresh :: session where
  "fresh = \<lparr>db = shop, tx = shop\<rparr>"

definition request :: "int \<Rightarrow> (int \<times> int) list \<Rightarrow> OrderSchema" where
  "request c lines =
     \<lparr>date = None, total = 0, delivery_method = ''DRIVE_THRU'', status = ''PENDING'',
      client_id = c, bill_id = None,
      items = Some (map (\<lambda>(p, q). \<lparr>product_id = p, quantity = q\<rparr>) lines),
      discount_pct = Some 10\<rparr>"

definition old_orders :: store where
  "old_orders = shop\<lparr>orders :=
     [\<lparr>id_key = 5000, order_date = None, order_total = 0,
       order_delivery_method = ''DRIVE_THRU'', order_status = ''PENDING'',
       order_client_id = 1, order_bill_id = None\<rparr>]\<rparr>"

text \<open>
  A session whose store already holds a bill (with a number that is not numeric), a
  session with a pending, uncommitted change of a product's stock, and a session whose
  store holds the order 5000.
\<close>

definition billed :: session where
  "billed = \<lparr>db = shop\<lparr>bills := [(3, \<lparr>bill_number = Some ''B-77'', discount = 0, bill_date = 0,
                                       bill_total = 0, payment_type = ''CARD'',
                                       bill_client_id = 1\<rparr>)]\<rparr>,
             tx = shop\<lparr>bills := [(3, \<lparr>bill_number = Some ''B-77'', discount = 0, bill_date = 0,
                                       bill_total = 0, payment_type = ''CARD'',
                                       bill_client_id = 1\<rparr>)]\<rparr>\<rparr>"

definition dirty :: session where
  "dirty = \<lparr>db = shop,
            tx = shop\<lparr>products := (products shop)(7 \<mapsto> \<lparr>price = Some 5, stock = Some 4\<rparr>)\<rparr>\<rparr>"

definition placed :: session where
  "placed = \<lparr>db = old_orders, tx = old_orders\<rparr>"

section \<open>Properties of \<^verbatim>\<open>str\<close> and \<^verbatim>\<open>int\<close>\<close>

lemma digit_cases: "d < 10 \<Longrightarrow> d \<in> {0, 1, 2, 3, 4, 5, 6, 7, 8, 9 :: nat}"
  by auto

lemma is_digit_digit_char: "d < 10 \<Longrightarrow> is_digit (digit_char d)"
  using digit_cases[of d] by (auto simp add: is_digit_def digit_char_def)

lemma digit_val_digit_char: "d < 10 \<Longrightarrow> digit_val (digit_char d) = d"
  using digit_cases[of d] by (auto simp add: digit_val_def digit_char_def)

lemma not_space_digit: "is_digit c \<Longrightarrow> \<not> is_space c"
  by (auto simp add: is_digit_def is_space_def Let_def)

lemma digits_from_append:
  "digits_from acc xs = Some m \<Longrightarrow> is_digit c
     \<Longrightarrow> digits_from acc (xs @ [c]) = Some (10 * m + digit_val c)"
proof (induction acc xs rule: digits_from.induct)
  case (1 acc)
  then show ?case by simp
next
  case (2 acc c' cs)
  then show ?case
    by (cases cs) (auto split: if_splits)
qed

lemma parse_nat_append:
  "parse_nat xs = Some m \<Longrightarrow> is_digit c \<Longrightarrow> parse_nat (xs @ [c]) = Some (10 * m + digit_val c)"
  by (cases xs) (auto split: if_splits simp: digits_from_append)

lemma parse_nat_str_nat: "parse_nat (str_nat n) = Some n"
proof (induction n rule: str_nat.induct)
  case (1 n)
  show ?case
  proof (cases "n < 10")
    case True
    then show ?thesis
      by (simp add: str_nat.simps[of n] is_digit_digit_char digit_val_digit_char)
  next
    case False
    with 1 have ih: "parse_nat (str_nat (n div 10)) = Some (n div 10)" by simp
    have "n mod 10 < 10" by simp
    then show ?thesis using False
      by (simp add: str_nat.simps[of n] parse_nat_append[OF ih]
          is_digit_digit_char digit_val_digit_char)
  qed
qed

lemma str_nat_digits: "\<forall>c \<in> set (str_nat n). is_digit c"
proof (induction n rule: str_nat.induct)
  case (1 n)
  show ?case
  proof (cases "n < 10")
    case True
    then show ?thesis by (simp add: str_nat.simps[of n] is_digit_digit_char)
  next
    case False
    with 1 have "\<forall>c \<in> set (str_nat (n div 10)). is_digit c" by simp
    then show ?thesis using False
      by (simp add: str_nat.simps[of n] is_digit_digit_char)
  qed
qed

lemma str_nat_nonempty: "str_nat n \<noteq> []"
  by (simp add: str_nat.simps[of n])

lemma dropWhile_hd: "xs \<noteq> [] \<Longrightarrow> \<not> P (hd xs) \<Longrightarrow> dropWhile P xs = xs"
  by (cases xs) auto

lemma strip_id:
  "xs \<noteq> [] \<Longrightarrow> \<not> is_space (hd xs) \<Longrightarrow> \<not> is_space (last xs) \<Longrightarrow> strip xs = xs"
  unfolding strip_def by (simp add: dropWhile_hd hd_rev)

text \<open>Reading back what \<^verbatim>\<open>str\<close> printed gives the number printed.\<close>

lemma py_int_str: "py_int (str i) = Some i"
proof (cases "i < 0")
  case True
  let ?d = "str_nat (nat (- i))"
  have ne: "?d \<noteq> []" by (rule str_nat_nonempty)
  have ld: "is_digit (last ?d)" using str_nat_digits ne by (meson last_in_set)
  have "\<not> is_space (CHR ''-'')" by (simp add: is_space_def)
  then have "strip (CHR ''-'' # ?d) = CHR ''-'' # ?d"
    using ne ld not_space_digit by (intro strip_id) auto
  then show ?thesis using True
    by (simp add: py_int_def str_def parse_nat_str_nat)
next
  case False
  let ?d = "str_nat (nat i)"
  have ne: "?d \<noteq> []" by (rule str_nat_nonempty)
  then obtain c cs where d: "?d = c # cs" by (cases ?d) auto
  have all: "\<forall>c \<in> set ?d. is_digit c" by (rule str_nat_digits)
  have "is_digit (hd ?d)" "is_digit (last ?d)" using all ne by (meson hd_in_set last_in_set)+
  then have st: "strip ?d = ?d" using ne not_space_digit by (intro strip_id) auto
  have "is_digit c" using all d by simp
  then have "c \<noteq> CHR ''-''" "c \<noteq> CHR ''+''" by (auto simp: is_digit_def)
  moreover have "parse_nat (c # cs) = Some (nat i)" using parse_nat_str_nat[of "nat i"] d by simp
  ultimately show ?thesis using False st d
    by (simp add: py_int_def str_def del: parse_nat.simps)
qed

section \<open>Properties of the allocator\<close>

lemma fold_max_ge: "(a::int) \<le> fold max xs a"
proof (induction xs arbitrary: a)
  case Nil
  then show ?case by simp
next
  case (Cons y ys)
  have "a \<le> max y a" by simp
  also have "max y a \<le> fold max ys (max y a)" by (rule Cons.IH)
  finally show ?case by simp
qed

lemma fold_max_mem: "x \<in> set xs \<Longrightarrow> (x::int) \<le> fold max xs a"
proof (induction xs arbitrary: a)
  case Nil
  then show ?case by simp
next
  case (Cons y ys)
  show ?case
  proof (cases "x = y")
    case True
    have "max y a \<le> fold max ys (max y a)" by (rule fold_max_ge)
    then show ?thesis using True by simp
  next
    case False
    then show ?thesis using Cons by simp
  qed
qed





section \<open>The loops of \<^verbatim>\<open>save\<close>\<close>

lemma requested_Nil [simp]: "requested [] p = 0"
  by (simp add: requested_def)

lemma requested_Cons:
  "requested (it # its) p = (if product_id it = p then quantity it else 0) + requested its p"
  by (simp add: requested_def)

lemma requested_notin: "p \<notin> product_id ` set its \<Longrightarrow> requested its p = 0"
  by (induction its) (auto simp: requested_Cons)



lemma check_items_cache:
  "check_items e st its c sub = Inr (c', sub') \<Longrightarrow>
     c' k = (if k \<in> product_id ` set its then Some k else c k)"
proof (induction its arbitrary: c sub)
  case Nil
  then show ?case by simp
next
  case (Cons it its)
  from Cons.prems obtain product where
    rec: "check_items e st its (c(product_id it \<mapsto> product_id it))
            (sub + price_or_zero product * real_of_int (quantity it)) = Inr (c', sub')"
    by (auto split: if_splits option.splits)
  from Cons.IH[OF rec] show ?case by auto
qed

lemma check_items_stock:
  "check_items e st its c sub = Inr (c', sub') \<Longrightarrow> it \<in> set its \<Longrightarrow>
     \<exists>product n. products st (product_id it) = Some product \<and> stock product = Some n \<and> quantity it \<le> n"
proof (induction its arbitrary: c sub)
  case Nil
  then show ?case by simp
next
  case (Cons x xs)
  from Cons.prems(1) obtain product n where
    px: "products st (product_id x) = Some product" "stock product = Some n" "\<not> n < quantity x" and
    rec: "check_items e st xs (c(product_id x \<mapsto> product_id x))
            (sub + price_or_zero product * real_of_int (quantity x)) = Inr (c', sub')"
    by (auto split: if_splits option.splits)
  show ?case
  proof (cases "it = x")
    case True
    then show ?thesis using px by auto
  next
    case False
    then show ?thesis using Cons.IH[OF rec] Cons.prems(2) by simp
  qed
qed

lemma price_or_zero_eq:
  "price_or_zero product = (case price product of None \<Rightarrow> 0 | Some x \<Rightarrow> x)"
  by (simp add: price_or_zero_def split: option.splits)

lemma check_items_subtotal:
  "check_items e st its c sub = Inr (c', sub') \<Longrightarrow> sub' = sub + spec_subtotal st its"
proof (induction its arbitrary: c sub)
  case Nil
  then show ?case by (simp add: spec_subtotal_def)
next
  case (Cons x xs)
  from Cons.prems(1) obtain product where
    px: "products st (product_id x) = Some product" and
    rec: "check_items e st xs (c(product_id x \<mapsto> product_id x))
            (sub + price_or_zero product * real_of_int (quantity x)) = Inr (c', sub')"
    by (auto split: if_splits option.splits)
  from Cons.IH[OF rec] px show ?case
    by (simp add: spec_subtotal_def price_or_zero_eq)
qed

lemma check_items_no_faults:
  "check_items e st its c sub = Inr r \<Longrightarrow> its \<noteq> [] \<Longrightarrow> ProductGet \<notin> faults e"
  by (cases its) (auto split: if_splits)



lemma update_stock_ConsE:
  assumes "update_stock c st (it # its) = (r, st')"
  obtains
    (nokey) "c (product_id it) = None" "r = Some (KeyError (product_id it))" "st' = st"
  | (noobj) h where "c (product_id it) = Some h" "products st h = None"
      "r = Some (KeyError h)" "st' = st"
  | (nostock) h product where "c (product_id it) = Some h" "products st h = Some product"
      "stock product = None" "r = Some TypeError" "st' = st"
  | (neg) h product n where "c (product_id it) = Some h" "products st h = Some product"
      "stock product = Some n" "n - quantity it < 0"
      "r = Some (ValueError h (Some (n - quantity it)) (quantity it))"
      "st' = st\<lparr>products := (products st)(h \<mapsto> product\<lparr>stock := Some (n - quantity it)\<rparr>)\<rparr>"
  | (rec) h product n where "c (product_id it) = Some h" "products st h = Some product"
      "stock product = Some n" "\<not> n - quantity it < 0"
      "update_stock c (st\<lparr>products := (products st)(h \<mapsto> product\<lparr>stock := Some (n - quantity it)\<rparr>)\<rparr>) its = (r, st')"
proof (cases "c (product_id it)")
  case None
  with assms have "r = Some (KeyError (product_id it))" "st' = st" by simp_all
  with None show ?thesis by (rule nokey)
next
  case (Some h)
  note ch = this
  show ?thesis
  proof (cases "products st h")
    case None
    with assms ch have "r = Some (KeyError h)" "st' = st" by simp_all
    with ch None show ?thesis by (rule noobj)
  next
    case (Some product)
    note ph = this
    show ?thesis
    proof (cases "stock product")
      case None
      with assms ch ph have "r = Some TypeError" "st' = st" by simp_all
      with ch ph None show ?thesis by (rule nostock)
    next
      case (Some n)
      show ?thesis
      proof (cases "n - quantity it < 0")
        case True
        with assms ch ph Some
        have "r = Some (ValueError h (Some (n - quantity it)) (quantity it))"
          "st' = st\<lparr>products := (products st)(h \<mapsto> product\<lparr>stock := Some (n - quantity it)\<rparr>)\<rparr>"
          by (simp_all add: Let_def)
        with ch ph Some True show ?thesis by (rule neg)
      next
        case False
        with assms ch ph Some
        have "update_stock c (st\<lparr>products := (products st)(h \<mapsto> product\<lparr>stock := Some (n - quantity it)\<rparr>)\<rparr>) its = (r, st')"
          by (simp add: Let_def)
        with ch ph Some False show ?thesis by (rule rec)
      qed
    qed
  qed
qed

lemma update_stock_frame:
  "update_stock c st its = (r, st') \<Longrightarrow>
     clients st' = clients st \<and> bills st' = bills st \<and> orders st' = orders st
       \<and> order_details st' = order_details st"
proof (induction its arbitrary: st)
  case Nil
  then show ?case by simp
next
  case (Cons it its)
  from Cons.prems show ?case
  proof (cases rule: update_stock_ConsE)
    case (rec h product n)
    from Cons.IH[OF rec(5)] show ?thesis by simp
  qed simp_all
qed

lemma update_stock_errors:
  "update_stock c st its = (Some err, st') \<Longrightarrow>
     (\<exists>p a q. err = ValueError p a q) \<or> (\<exists>k. err = KeyError k) \<or> err = TypeError"
proof (induction its arbitrary: st)
  case Nil
  then show ?case by simp
next
  case (Cons it its)
  from Cons.prems show ?case
  proof (cases rule: update_stock_ConsE)
    case (rec h product n)
    from Cons.IH[OF rec(5)] show ?thesis .
  qed auto
qed

lemma update_stock_success:
  assumes "update_stock c st its = (None, st')"
    and "\<forall>it \<in> set its. c (product_id it) = Some (product_id it)"
  shows "(\<forall>p. p \<notin> product_id ` set its \<longrightarrow> products st' p = products st p)
       \<and> (\<forall>p \<in> product_id ` set its. \<exists>product n.
             products st p = Some product \<and> stock product = Some n
             \<and> products st' p = Some (product\<lparr>stock := Some (n - requested its p)\<rparr>)
             \<and> 0 \<le> n - requested its p)"
  using assms
proof (induction its arbitrary: st)
  case Nil
  then show ?case by simp
next
  case (Cons it its)
  let ?h = "product_id it"
  from Cons.prems(2) have ch: "c ?h = Some ?h" by simp
  from Cons.prems(1) ch obtain product n where
    p: "products st ?h = Some product" "stock product = Some n" "\<not> n - quantity it < 0"
    and rec: "update_stock c (st\<lparr>products := (products st)(?h \<mapsto> product\<lparr>stock := Some (n - quantity it)\<rparr>)\<rparr>) its = (None, st')"
    by (cases rule: update_stock_ConsE) auto
  let ?st1 = "st\<lparr>products := (products st)(?h \<mapsto> product\<lparr>stock := Some (n - quantity it)\<rparr>)\<rparr>"
  from Cons.prems(2) have c': "\<forall>it \<in> set its. c (product_id it) = Some (product_id it)" by simp
  note ih = Cons.IH[OF rec c']
  have other: "products st' q = products st q" if "q \<notin> product_id ` set (it # its)" for q
  proof -
    from that have "q \<notin> product_id ` set its" "q \<noteq> ?h" by auto
    with ih show ?thesis by simp
  qed
  have touched: "\<exists>product n. products st q = Some product \<and> stock product = Some n
             \<and> products st' q = Some (product\<lparr>stock := Some (n - requested (it # its) q)\<rparr>)
             \<and> 0 \<le> n - requested (it # its) q" if "q \<in> product_id ` set (it # its)" for q
  proof (cases "q \<in> product_id ` set its")
    case True
    with ih obtain product1 n1 where
      q1: "products ?st1 q = Some product1" "stock product1 = Some n1"
          "products st' q = Some (product1\<lparr>stock := Some (n1 - requested its q)\<rparr>)"
          "0 \<le> n1 - requested its q" by blast
    show ?thesis
    proof (cases "q = ?h")
      case True
      with q1 p show ?thesis by (auto simp: requested_Cons algebra_simps)
    next
      case False
      with q1 show ?thesis by (auto simp: requested_Cons)
    qed
  next
    case False
    with that have qh: "q = ?h" by auto
    from False ih have "products st' q = products ?st1 q" by simp
    with qh p False show ?thesis by (auto simp: requested_Cons requested_notin)
  qed
  show ?case using other touched by blast
qed

lemma update_stock_total:
  assumes "\<forall>it \<in> set its. c (product_id it) = Some (product_id it)"
    and "\<forall>it \<in> set its. \<exists>n. stock_at st (product_id it) = Some n"
    and "update_stock c st its = (Some err, st')"
  shows "\<exists>p a q. err = ValueError p a q"
  using assms
proof (induction its arbitrary: st)
  case Nil
  then show ?case by simp
next
  case (Cons it its)
  let ?h = "product_id it"
  from Cons.prems(1) have ch: "c ?h = Some ?h" by simp
  from Cons.prems(2) obtain product0 n0 where
    p: "products st ?h = Some product0" "stock product0 = Some n0"
    by (auto simp: stock_at_def split: option.splits)
  from Cons.prems(3) show ?case
  proof (cases rule: update_stock_ConsE)
    case nokey
    then show ?thesis using ch by simp
  next
    case (noobj h)
    then show ?thesis using ch p by simp
  next
    case (nostock h product)
    then show ?thesis using ch p by simp
  next
    case (neg h product n)
    then show ?thesis by simp
  next
    case (rec h product n)
    have "\<forall>x \<in> set its. \<exists>m. stock_at
        (st\<lparr>products := (products st)(h \<mapsto> product\<lparr>stock := Some (n - quantity it)\<rparr>)\<rparr>)
        (product_id x) = Some m"
      using Cons.prems(2) by (auto simp: stock_at_def)
    moreover have "\<forall>x \<in> set its. c (product_id x) = Some (product_id x)"
      using Cons.prems(1) by simp
    ultimately show ?thesis using Cons.IH rec(5) by blast
  qed
qed

section \<open>The bill and the detail rows\<close>

lemma next_bill_id_fresh: "map_of rows (next_bill_id rows) = None"
proof -
  have "k \<le> fold max (map fst rows) 0" if "k \<in> fst ` set rows" for k
    using that by (intro fold_max_mem) simp
  then have "next_bill_id rows \<notin> fst ` set rows"
    unfolding next_bill_id_def by force
  then show ?thesis by (simp add: map_of_eq_None_iff)
qed

lemma link_bill_frame:
  "link_bill e st schema d t n = (r, st') \<Longrightarrow>
     clients st' = clients st \<and> products st' = products st \<and> orders st' = orders st
       \<and> order_details st' = order_details st"
  by (auto simp: link_bill_def Let_def split: option.splits if_splits)

lemma link_bill_number:
  "link_bill e st schema d t n = (Inr b, st') \<Longrightarrow>
     \<exists>bill. map_of (bills st') b = Some bill \<and> bill_number bill = Some (str n)"
  by (auto simp: link_bill_def Let_def next_bill_id_fresh update_conv' map_add_def
      split: option.splits if_splits)

lemma link_bill_new:
  "link_bill e st schema d t n = (Inr b, st') \<Longrightarrow> bill_id schema = None \<Longrightarrow>
     \<exists>bill. map_of (bills st') b = Some bill \<and> discount bill = d \<and> bill_total bill = t
        \<and> map_of (bills st) b = None"
  by (auto simp: link_bill_def Let_def next_bill_id_fresh map_add_def split: option.splits if_splits)

lemma link_bill_supplied:
  "link_bill e st schema d t n = (Inr b, st') \<Longrightarrow> bill_id schema = Some k \<Longrightarrow>
     b = k \<and> map_of (bills st) k \<noteq> None"
  by (auto simp: link_bill_def Let_def split: option.splits if_splits)

lemma link_bill_errors:
  "link_bill e st schema d t n = (Inl err, st') \<Longrightarrow>
     err = StorageFailure FlushBill \<or> err = StorageFailure BillGet
       \<or> (\<exists>k. bill_id schema = Some k \<and> map_of (bills st) k = None \<and> err = InstanceNotFoundError Bill k)"
  by (auto simp: link_bill_def Let_def split: option.splits if_splits)

lemma create_details_frame:
  "create_details c oid st its = (r, st') \<Longrightarrow>
     clients st' = clients st \<and> products st' = products st \<and> orders st' = orders st
       \<and> bills st' = bills st"
proof (induction its arbitrary: st)
  case Nil
  then show ?case by simp
next
  case (Cons it its)
  show ?case
  proof (cases "c (product_id it)")
    case None
    then show ?thesis using Cons.prems by simp
  next
    case (Some h)
    then show ?thesis using Cons.prems Cons.IH
      by (cases "products st h") (auto dest!: Cons.IH)
  qed
qed

lemma create_details_errors:
  "create_details c oid st its = (Some err, st') \<Longrightarrow> \<exists>k. err = KeyError k"
proof (induction its arbitrary: st)
  case Nil
  then show ?case by simp
next
  case (Cons it its)
  show ?case
  proof (cases "c (product_id it)")
    case None
    then show ?thesis using Cons.prems by auto
  next
    case (Some h)
    then show ?thesis using Cons.prems Cons.IH
      by (cases "products st h") auto
  qed
qed

lemma create_details_success:
  assumes "create_details c oid st its = (None, st')"
    and "\<forall>it \<in> set its. c (product_id it) = Some (product_id it)"
  shows "order_details st' = order_details st @ map (detail_of st oid) its"
  using assms
proof (induction its arbitrary: st)
  case Nil
  then show ?case by simp
next
  case (Cons it its)
  from Cons.prems(2) have ch: "c (product_id it) = Some (product_id it)" by simp
  from Cons.prems(1) ch obtain product where
    p: "products st (product_id it) = Some product" and
    rec: "create_details c oid (st\<lparr>order_details := order_details st @
              [\<lparr>od_order_id = oid, od_product_id = product_id it,
                od_quantity = quantity it, od_price = price product\<rparr>]\<rparr>) its = (None, st')"
    by (cases "products st (product_id it)") auto
  from Cons.prems(2) have c': "\<forall>x \<in> set its. c (product_id x) = Some (product_id x)" by simp
  from Cons.IH[OF rec c'] p show ?case by (simp add: detail_of_def)
qed

section \<open>Failures of the first loop\<close>

lemma check_items_append_absent_stock:
  assumes "ProductGet \<notin> faults e"
    and "\<forall>x \<in> set pre. \<exists>product n. products st (product_id x) = Some product
            \<and> stock product = Some n \<and> quantity x \<le> n"
    and "products st (product_id it) = Some product" and "stock product = None"
  shows "check_items e st (pre @ it # post) c sub
           = Inl (ValueError (product_id it) None (quantity it))"
  using assms(2)
proof (induction pre arbitrary: c sub)
  case Nil
  then show ?case using assms(1,3,4) by simp
next
  case (Cons x pre)
  from Cons.prems obtain px n where
    "products st (product_id x) = Some px" "stock px = Some n" "quantity x \<le> n" by auto
  moreover from Cons.prems have "\<forall>x \<in> set pre. \<exists>product n. products st (product_id x) = Some product
            \<and> stock product = Some n \<and> quantity x \<le> n" by simp
  ultimately show ?case using Cons.IH assms(1) by simp
qed

lemma check_items_errors:
  assumes "check_items e st its c sub = Inl err"
    and "ProductGet \<notin> faults e"
    and "\<forall>it \<in> set its. products st (product_id it) \<noteq> None"
  shows "\<exists>p a q. err = ValueError p a q"
  using assms(1,3)
proof (induction its arbitrary: c sub)
  case Nil
  then show ?case by simp
next
  case (Cons it its)
  then show ?case using assms(2)
    by (auto split: option.splits if_splits)
qed

section \<open>The control flow of \<^verbatim>\<open>save\<close>\<close>

lemma save_try_Inr:
  assumes "save_try e s schema its c d t n = (Inr r, s')"
  shows "\<exists>st1 b st3 st5.
      update_stock c (tx s) its = (None, st1)
    \<and> link_bill e (st1\<lparr>orders := orders st1 @ [new_order e schema t n]\<rparr>) schema d t n = (Inr b, st3)
    \<and> create_details c n (st3\<lparr>orders := orders st1 @ [(new_order e schema t n)\<lparr>order_bill_id := Some b\<rparr>]\<rparr>) its = (None, st5)
    \<and> r = (new_order e schema t n)\<lparr>order_bill_id := Some b\<rparr>
    \<and> db s' = st5 \<and> tx s' = st5"
proof -
  obtain r1 st1 where us: "update_stock c (tx s) its = (r1, st1)" by (cases "update_stock c (tx s) its")
  let ?om = "new_order e schema t n"
  let ?st2 = "st1\<lparr>orders := orders st1 @ [?om]\<rparr>"
  obtain r2 st3 where lb: "link_bill e ?st2 schema d t n = (r2, st3)"
    by (cases "link_bill e ?st2 schema d t n")
  from assms us have r1: "r1 = None" and fo: "FlushOrder \<notin> faults e"
    by (auto simp: save_try_def Let_def split: option.splits if_splits)
  from assms us lb r1 fo obtain b where r2: "r2 = Inr b"
    by (cases r2) (auto simp: save_try_def Let_def)
  let ?linked = "?om\<lparr>order_bill_id := Some b\<rparr>"
  let ?st4 = "st3\<lparr>orders := orders st1 @ [?linked]\<rparr>"
  have idk: "id_key ?linked = n" by (simp add: new_order_def)
  obtain r3 st5 where cd: "create_details c n ?st4 its = (r3, st5)"
    by (cases "create_details c n ?st4 its")
  from assms us lb r1 fo r2 cd idk have r3: "r3 = None"
    by (cases r3) (auto simp: save_try_def Let_def)
  from assms us lb r1 fo r2 cd idk r3 have "r = ?linked \<and> db s' = st5 \<and> tx s' = st5"
    by (auto simp: save_try_def Let_def commit_def split: if_splits)
  with us lb cd r1 r2 r3 show ?thesis by blast
qed

lemma save_try_Inl:
  assumes "save_try e s schema its c d t n = (Inl err, s')"
    and "err \<noteq> StorageFailure ModelValidate"
  shows "db s' = db s"
proof -
  obtain r1 st1 where us: "update_stock c (tx s) its = (r1, st1)" by (cases "update_stock c (tx s) its")
  let ?om = "new_order e schema t n"
  let ?st2 = "st1\<lparr>orders := orders st1 @ [?om]\<rparr>"
  obtain r2 st3 where lb: "link_bill e ?st2 schema d t n = (r2, st3)"
    by (cases "link_bill e ?st2 schema d t n")
  show ?thesis
  proof (cases r1)
    case (Some x)
    with assms us show ?thesis by (auto simp: save_try_def)
  next
    case None
    note r1 = this
    show ?thesis
    proof (cases "FlushOrder \<in> faults e")
      case True
      with assms us r1 show ?thesis by (auto simp: save_try_def Let_def)
    next
      case False
      note fo = this
      show ?thesis
      proof (cases r2)
        case (Inl x)
        with assms us r1 fo lb show ?thesis by (auto simp: save_try_def Let_def)
      next
        case (Inr b)
        let ?linked = "?om\<lparr>order_bill_id := Some b\<rparr>"
        let ?st4 = "st3\<lparr>orders := orders st1 @ [?linked]\<rparr>"
        have idk: "id_key ?linked = n" by (simp add: new_order_def)
        obtain r3 st5 where cd: "create_details c n ?st4 its = (r3, st5)"
          by (cases "create_details c n ?st4 its")
        from assms us r1 fo lb Inr cd idk show ?thesis
          by (cases r3) (auto simp: save_try_def Let_def commit_def split: if_splits)
      qed
    qed
  qed
qed

lemma save_Inr:
  assumes "save e s schema = (Inr r, s')"
  shows "\<exists>c sub. ClientFind \<notin> faults e \<and> client_id schema \<in> clients (tx s)
     \<and> check_items e (tx s) (items_or_empty schema) Map.empty 0 = Inr (c, sub)
     \<and> save_try e s schema (items_or_empty schema) c (discount_amount_of schema sub)
          (max (sub - discount_amount_of schema sub) 0)
          (fst (generate_next_order_number e (tx s))) = (Inr r, s')"
proof -
  from assms have cf: "ClientFind \<notin> faults e" and cl: "client_id schema \<in> clients (tx s)"
    by (auto simp: save_def split: if_splits)
  obtain c sub where ci: "check_items e (tx s) (items_or_empty schema) Map.empty 0 = Inr (c, sub)"
    using assms cf cl
    by (cases "check_items e (tx s) (items_or_empty schema) Map.empty 0")
       (auto simp: save_def Let_def)
  let ?t = "save_try e s schema (items_or_empty schema) c (discount_amount_of schema sub)
          (max (sub - discount_amount_of schema sub) 0)
          (fst (generate_next_order_number e (tx s)))"
  obtain r1 s1 where st: "?t = (r1, s1)" by (cases ?t)
  from assms cf cl ci st have "r1 = Inr r \<and> s1 = s'"
    by (cases r1) (auto simp: save_def Let_def)
  with st ci cf cl show ?thesis by blast
qed

lemma save_Inl:
  assumes "save e s schema = (Inl err, s')"
  shows "(s' = s \<and> (err = StorageFailure ClientFind \<and> ClientFind \<in> faults e
              \<or> err = InstanceNotFoundError Client (client_id schema) \<and> client_id schema \<notin> clients (tx s)
              \<or> check_items e (tx s) (items_or_empty schema) Map.empty 0 = Inl err))
       \<or> (\<exists>c sub s1. check_items e (tx s) (items_or_empty schema) Map.empty 0 = Inr (c, sub)
            \<and> save_try e s schema (items_or_empty schema) c (discount_amount_of schema sub)
                 (max (sub - discount_amount_of schema sub) 0)
                 (fst (generate_next_order_number e (tx s))) = (Inl err, s1)
            \<and> s' = rollback s1)"
proof (cases "ClientFind \<in> faults e")
  case True
  with assms show ?thesis by (auto simp: save_def)
next
  case False
  note cf = this
  show ?thesis
  proof (cases "client_id schema \<in> clients (tx s)")
    case False
    with assms cf show ?thesis by (auto simp: save_def)
  next
    case True
    note cl = this
    show ?thesis
    proof (cases "check_items e (tx s) (items_or_empty schema) Map.empty 0")
      case (Inl x)
      with assms cf cl show ?thesis by (auto simp: save_def Let_def)
    next
      case (Inr p)
      obtain c sub where p: "p = (c, sub)" by (cases p)
      let ?t = "save_try e s schema (items_or_empty schema) c (discount_amount_of schema sub)
          (max (sub - discount_amount_of schema sub) 0)
          (fst (generate_next_order_number e (tx s)))"
      obtain r1 s1 where st: "?t = (r1, s1)" by (cases ?t)
      from assms cf cl Inr p st have "r1 = Inl err \<and> s' = rollback s1"
        by (cases r1) (auto simp: save_def Let_def)
      with st Inr p show ?thesis by blast
    qed
  qed
qed

lemma check_items_cache_empty:
  "check_items e st its Map.empty sub = Inr (c, sub') \<Longrightarrow>
     \<forall>it \<in> set its. c (product_id it) = Some (product_id it)"
  using check_items_cache[of e st its Map.empty sub c sub'] by simp

text \<open>What a successful call of \<^verbatim>\<open>save\<close> has done, step by step.\<close>

lemma save_Inr_parts:
  assumes "save e s schema = (Inr r, s')"
  shows "\<exists>c sub st1 b st3.
      check_items e (tx s) (items_or_empty schema) Map.empty 0 = Inr (c, sub)
    \<and> (\<forall>it \<in> set (items_or_empty schema). c (product_id it) = Some (product_id it))
    \<and> update_stock c (tx s) (items_or_empty schema) = (None, st1)
    \<and> link_bill e (st1\<lparr>orders := orders st1 @
          [new_order e schema (max (sub - discount_amount_of schema sub) 0)
             (fst (generate_next_order_number e (tx s)))]\<rparr>)
        schema (discount_amount_of schema sub) (max (sub - discount_amount_of schema sub) 0)
        (fst (generate_next_order_number e (tx s))) = (Inr b, st3)
    \<and> r = (new_order e schema (max (sub - discount_amount_of schema sub) 0)
             (fst (generate_next_order_number e (tx s))))\<lparr>order_bill_id := Some b\<rparr>
    \<and> clients (tx s') = clients (tx s)
    \<and> products (tx s') = products st1
    \<and> bills (tx s') = bills st3
    \<and> orders (tx s') = orders (tx s) @ [r]
    \<and> order_details (tx s') = order_details (tx s) @
         map (detail_of st1 (id_key r)) (items_or_empty schema)
    \<and> db s' = tx s'"
proof -
  let ?its = "items_or_empty schema"
  let ?n = "fst (generate_next_order_number e (tx s))"
  from save_Inr[OF assms] obtain c sub where
    ci: "check_items e (tx s) ?its Map.empty 0 = Inr (c, sub)" and
    st: "save_try e s schema ?its c (discount_amount_of schema sub)
          (max (sub - discount_amount_of schema sub) 0) ?n = (Inr r, s')"
    by blast
  let ?d = "discount_amount_of schema sub"
  let ?t = "max (sub - ?d) 0"
  let ?om = "new_order e schema ?t ?n"
  from save_try_Inr[OF st] obtain st1 b st3 st5 where
    us: "update_stock c (tx s) ?its = (None, st1)" and
    lb: "link_bill e (st1\<lparr>orders := orders st1 @ [?om]\<rparr>) schema ?d ?t ?n = (Inr b, st3)" and
    cd: "create_details c ?n (st3\<lparr>orders := orders st1 @ [?om\<lparr>order_bill_id := Some b\<rparr>]\<rparr>) ?its
           = (None, st5)" and
    r: "r = ?om\<lparr>order_bill_id := Some b\<rparr>" and
    s': "db s' = st5" "tx s' = st5"
    by blast
  have cache: "\<forall>it \<in> set ?its. c (product_id it) = Some (product_id it)"
    using ci by (rule check_items_cache_empty)
  note f1 = update_stock_frame[OF us]
  note f2 = link_bill_frame[OF lb]
  note f3 = create_details_frame[OF cd]
  have idr: "id_key r = ?n" using r by (simp add: new_order_def)
  have det: "order_details st5 = order_details (tx s) @ map (detail_of st1 (id_key r)) ?its"
  proof -
    let ?st4 = "st3\<lparr>orders := orders st1 @ [?om\<lparr>order_bill_id := Some b\<rparr>]\<rparr>"
    have "order_details st5 = order_details ?st4 @ map (detail_of ?st4 ?n) ?its"
      using cd cache by (rule create_details_success)
    moreover have "detail_of ?st4 ?n = detail_of st1 ?n"
      using f2 by (simp add: detail_of_def fun_eq_iff)
    moreover have "order_details ?st4 = order_details (tx s)" using f1 f2 by simp
    ultimately show ?thesis using idr by simp
  qed
  have "clients st5 = clients (tx s)" using f1 f2 f3 by simp
  moreover have "products st5 = products st1" using f2 f3 by simp
  moreover have "bills st5 = bills st3" using f3 by simp
  moreover have "orders st5 = orders (tx s) @ [r]" using f1 f3 r by simp
  ultimately show ?thesis using ci cache us lb r det s' by auto
qed

section \<open>The generic update\<close>

lemma base_update_frame:
  "base_update s k schema = (r, s') \<Longrightarrow>
     db s' = db s \<and> clients (tx s') = clients (tx s) \<and> products (tx s') = products (tx s)
       \<and> bills (tx s') = bills (tx s) \<and> order_details (tx s') = order_details (tx s)"
  by (auto simp: base_update_def Let_def split: option.splits)

lemma base_update_Inl:
  "base_update s k schema = (Inl err, s') \<Longrightarrow> s' = s \<and> err = InstanceNotFoundError Order k"
  by (auto simp: base_update_def Let_def split: option.splits)

lemma base_update_Inr:
  "base_update s k schema = (Inr order, s') \<Longrightarrow>
     id_key order = k \<and> order_total order = total schema \<and> order_date order = date schema
       \<and> order_delivery_method order = delivery_method schema
       \<and> order_status order = status schema
       \<and> order_client_id order = client_id schema \<and> order_bill_id order = bill_id schema
       \<and> orders (tx s') = map (\<lambda>row. if id_key row = k then order else row) (orders (tx s))"
  by (auto simp: base_update_def Let_def split: option.splits dest: find_Some_iff[THEN iffD1])

section \<open>Example sessions\<close>

text \<open>The session with the pending change is not what a rollback leaves.\<close>

lemma dirty_not_rolled_back: "dirty \<noteq> rollback dirty"
proof
  assume "dirty = rollback dirty"
  then have "stock_at (tx dirty) 7 = stock_at (tx (rollback dirty)) 7"
    by (rule arg_cong)
  then show False by (simp add: stock_at_def dirty_def rollback_def shop_def)
qed

lemma rollback_dirty: "rollback dirty = fresh"
  by (simp add: rollback_def dirty_def fresh_def)

section \<open>Claims\<close>

text \<open>The definitions that a run on the example data unfolds.\<close>

lemmas eval_defs = save_def save_try_def link_bill_def next_bill_id_def commit_def rollback_def
  price_or_zero_def items_or_empty_def discount_amount_of_def date_or_now_def new_order_def
  generate_next_order_number_def max_order_id_def
  no_faults_def shop_def fresh_def billed_def dirty_def request_def Let_def

text \<open>
  C7: on a lookup failure the allocator does not raise, logs a warning and returns 1000.
  The failing input: the order table holds the id 5000 and the query of the bill numbers
  raises. The first query has already moved \<^verbatim>\<open>max_val\<close> to 5000, so the handler's
  fall-through returns 5001 with the warning (whose text says "defaulting to 1000").
  When it is the first query that raises, on the same store, the result is 1000.
\<close>

theorem allocator_bill_query_failure_returns_5001:
  "generate_next_order_number bill_query_fails old_orders = (5001, [WARNING])
     \<and> generate_next_order_number order_query_fails old_orders = (1000, [WARNING])"
  by (simp add: generate_next_order_number_def max_order_id_def bill_query_fails_def
      order_query_fails_def old_orders_def shop_def)

text \<open>
  C2: after a successful placement every product that the item list references has its
  stock decreased by exactly the total quantity the list requests of it, the decreased
  stock is not negative, and every other product is as it was. The committed store is
  compared with what the session saw when \<^verbatim>\<open>save\<close> was called.
\<close>

theorem save_decrements_stock:
  assumes "save e s schema = (Inr r, s')"
  shows "(\<forall>p \<in> product_id ` set (items_or_empty schema). \<exists>product n.
            products (tx s) p = Some product \<and> stock product = Some n
            \<and> products (db s') p
                = Some (product\<lparr>stock := Some (n - requested (items_or_empty schema) p)\<rparr>)
            \<and> 0 \<le> n - requested (items_or_empty schema) p)
       \<and> (\<forall>p. p \<notin> product_id ` set (items_or_empty schema)
            \<longrightarrow> products (db s') p = products (tx s) p)"
proof -
  from save_Inr_parts[OF assms] obtain c st1 where
    cache: "\<forall>it \<in> set (items_or_empty schema). c (product_id it) = Some (product_id it)" and
    us: "update_stock c (tx s) (items_or_empty schema) = (None, st1)" and
    pr: "products (tx s') = products st1" and db: "db s' = tx s'"
    by blast
  from update_stock_success[OF us cache] pr db show ?thesis by simp
qed

theorem save_decrements_stock_witness:
  "\<exists>r s'. save no_faults fresh (request 1 [(7, 2), (8, 1), (7, 3)]) = (Inr r, s')
      \<and> stock_at (db s') 7 = Some 5 \<and> stock_at (db s') 8 = Some 2
      \<and> products (db s') 9 = products (tx fresh) 9"
proof -
  let ?sch = "request 1 [(7, 2), (8, 1), (7, 3)]"
  have "\<exists>r s'. save no_faults fresh ?sch = (Inr r, s')"
    by (simp add: eval_defs)
  then obtain r s' where ev: "save no_faults fresh ?sch = (Inr r, s')" by blast
  have its: "items_or_empty ?sch = [\<lparr>product_id = 7, quantity = 2\<rparr>, \<lparr>product_id = 8, quantity = 1\<rparr>,
      \<lparr>product_id = 7, quantity = 3\<rparr>]"
    by (simp add: items_or_empty_def request_def)
  note th = save_decrements_stock[OF ev, unfolded its]
  have "stock_at (db s') 7 = Some 5"
    using th by (auto simp: stock_at_def requested_def fresh_def shop_def)
  moreover have "stock_at (db s') 8 = Some 2"
    using th by (auto simp: stock_at_def requested_def fresh_def shop_def)
  moreover have "products (db s') 9 = products (tx fresh) 9"
    using th by simp
  ultimately show ?thesis using ev by blast
qed

text \<open>
  C3: after a successful placement the order is in the committed store, it is linked to a
  bill of the committed store, and that bill's number, read as an integer, is the order's
  id. This holds when no bill id was supplied (the bill is a new row) and when one was
  supplied (the bill is the existing row of that id).
\<close>

theorem save_order_id_is_bill_number:
  assumes "save e s schema = (Inr r, s')"
  shows "r \<in> set (orders (db s'))
       \<and> (\<exists>b bill num. order_bill_id r = Some b \<and> map_of (bills (db s')) b = Some bill
             \<and> bill_number bill = Some num \<and> py_int num = Some (id_key r)
             \<and> (case bill_id schema of
                   None \<Rightarrow> map_of (bills (tx s)) b = None
                 | Some k \<Rightarrow> b = k \<and> map_of (bills (tx s)) k \<noteq> None))"
proof -
  let ?n = "fst (generate_next_order_number e (tx s))"
  from save_Inr_parts[OF assms] obtain c sub st1 b st3 where
    us: "update_stock c (tx s) (items_or_empty schema) = (None, st1)" and
    lb: "link_bill e (st1\<lparr>orders := orders st1 @
          [new_order e schema (max (sub - discount_amount_of schema sub) 0) ?n]\<rparr>)
        schema (discount_amount_of schema sub) (max (sub - discount_amount_of schema sub) 0)
        ?n = (Inr b, st3)" and
    r: "r = (new_order e schema (max (sub - discount_amount_of schema sub) 0) ?n)
              \<lparr>order_bill_id := Some b\<rparr>" and
    bl: "bills (tx s') = bills st3" and
    os: "orders (tx s') = orders (tx s) @ [r]" and
    db: "db s' = tx s'"
    by blast
  have idr: "id_key r = ?n" using r by (simp add: new_order_def)
  have rb: "order_bill_id r = Some b" using r by simp
  from link_bill_number[OF lb] obtain bill where
    bill: "map_of (bills st3) b = Some bill" "bill_number bill = Some (str ?n)" by blast
  have b0: "bills (st1\<lparr>orders := orders st1 @
          [new_order e schema (max (sub - discount_amount_of schema sub) 0) ?n]\<rparr>) = bills (tx s)"
    using update_stock_frame[OF us] by simp
  have cases: "(case bill_id schema of
                   None \<Rightarrow> map_of (bills (tx s)) b = None
                 | Some k \<Rightarrow> b = k \<and> map_of (bills (tx s)) k \<noteq> None)"
  proof (cases "bill_id schema")
    case None
    from link_bill_new[OF lb None] b0 None show ?thesis by auto
  next
    case (Some k)
    from link_bill_supplied[OF lb Some] b0 Some show ?thesis by auto
  qed
  have "r \<in> set (orders (db s'))" using os db by simp
  moreover have "py_int (str ?n) = Some (id_key r)" using idr by (simp add: py_int_str)
  ultimately show ?thesis using rb bill bl db cases by auto
qed

theorem save_order_id_is_bill_number_witness:
  "(\<exists>r s' bill num. save no_faults fresh (request 1 [(7, 2)]) = (Inr r, s')
       \<and> id_key r = 1000 \<and> order_bill_id r = Some 1 \<and> r \<in> set (orders (db s'))
       \<and> map_of (bills (db s')) 1 = Some bill \<and> bill_number bill = Some num
       \<and> py_int num = Some 1000)
 \<and> (\<exists>r s' bill num. save no_faults billed ((request 1 [(7, 2)])\<lparr>bill_id := Some 3\<rparr>) = (Inr r, s')
       \<and> id_key r = 1000 \<and> order_bill_id r = Some 3 \<and> r \<in> set (orders (db s'))
       \<and> map_of (bills (db s')) 3 = Some bill \<and> bill_number bill = Some num
       \<and> py_int num = Some 1000)"
proof -
  let ?a = "request 1 [(7, 2)]"
  let ?b = "(request 1 [(7, 2)])\<lparr>bill_id := Some 3\<rparr>"
  have "\<exists>r s'. save no_faults fresh ?a = (Inr r, s') \<and> id_key r = 1000 \<and> order_bill_id r = Some 1"
    by (simp add: eval_defs)
  then obtain r s' where
    ev: "save no_faults fresh ?a = (Inr r, s')" and r: "id_key r = 1000" "order_bill_id r = Some 1"
    by blast
  have "\<exists>r s'. save no_faults billed ?b = (Inr r, s') \<and> id_key r = 1000 \<and> order_bill_id r = Some 3"
    by (simp add: eval_defs py_int_def strip_def is_space_def is_digit_def)
  then obtain r2 s2 where
    ev2: "save no_faults billed ?b = (Inr r2, s2)" and r2: "id_key r2 = 1000" "order_bill_id r2 = Some 3"
    by blast
  from save_order_id_is_bill_number[OF ev] r
  have first: "r \<in> set (orders (db s')) \<and> (\<exists>bill num. map_of (bills (db s')) 1 = Some bill
      \<and> bill_number bill = Some num \<and> py_int num = Some 1000)"
    by auto
  from save_order_id_is_bill_number[OF ev2] r2
  have second: "r2 \<in> set (orders (db s2)) \<and> (\<exists>bill num. map_of (bills (db s2)) 3 = Some bill
      \<and> bill_number bill = Some num \<and> py_int num = Some 1000)"
    by auto
  from ev r first ev2 r2 second show ?thesis by blast
qed



text \<open>
  C10: the detail rows written by a successful placement are one per item, in order, each
  with the product's price field as it is, while the total is computed from the subtotal in
  which an absent price counts as zero. For an item whose product has no price the row
  stores the absent value and the pricing used zero.
\<close>

theorem save_detail_price_is_raw:
  assumes "save e s schema = (Inr r, s')"
  shows "order_details (db s')
           = order_details (tx s) @ map (detail_of (tx s) (id_key r)) (items_or_empty schema)
       \<and> order_total r
           = max (spec_subtotal (tx s) (items_or_empty schema)
                  - discount_amount_of schema (spec_subtotal (tx s) (items_or_empty schema))) 0
       \<and> (\<forall>it \<in> set (items_or_empty schema). \<forall>product.
            products (tx s) (product_id it) = Some product \<longrightarrow> price product = None \<longrightarrow>
              od_price (detail_of (tx s) (id_key r) it) = None \<and> price_or_zero product = 0)"
proof -
  let ?its = "items_or_empty schema"
  let ?n = "fst (generate_next_order_number e (tx s))"
  from save_Inr_parts[OF assms(1)] obtain c sub st1 b where
    ci: "check_items e (tx s) ?its Map.empty 0 = Inr (c, sub)" and
    cache: "\<forall>it \<in> set ?its. c (product_id it) = Some (product_id it)" and
    us: "update_stock c (tx s) ?its = (None, st1)" and
    r: "r = (new_order e schema (max (sub - discount_amount_of schema sub) 0) ?n)
              \<lparr>order_bill_id := Some b\<rparr>" and
    od: "order_details (tx s') = order_details (tx s) @ map (detail_of st1 (id_key r)) ?its" and
    db: "db s' = tx s'"
    by blast
  have sub: "sub = spec_subtotal (tx s) ?its"
    using check_items_subtotal[OF ci] by simp
  have tot: "order_total r = max (sub - discount_amount_of schema sub) 0"
    using r by (simp add: new_order_def)
  have same: "detail_of st1 k it = detail_of (tx s) k it" if "it \<in> set ?its" for it k
  proof -
    from that have "product_id it \<in> product_id ` set ?its" by simp
    with update_stock_success[OF us cache] obtain product n where
      "products (tx s) (product_id it) = Some product"
      "products st1 (product_id it) = Some (product\<lparr>stock := Some (n - requested ?its (product_id it))\<rparr>)"
      by blast
    then show ?thesis by (simp add: detail_of_def)
  qed
  have "map (detail_of st1 (id_key r)) ?its = map (detail_of (tx s) (id_key r)) ?its"
    using same by simp
  with od db have "order_details (db s')
           = order_details (tx s) @ map (detail_of (tx s) (id_key r)) ?its" by simp
  moreover have "od_price (detail_of (tx s) k it) = None \<and> price_or_zero product = 0"
    if "products (tx s) (product_id it) = Some product" "price product = None" for it product k
    using that by (simp add: detail_of_def price_or_zero_def)
  ultimately show ?thesis using sub tot by blast
qed

theorem save_detail_price_is_raw_witness:
  "\<exists>r s'. save no_faults fresh (request 1 [(8, 2)]) = (Inr r, s')
      \<and> order_details (db s')
          = [\<lparr>od_order_id = 1000, od_product_id = 8, od_quantity = 2, od_price = None\<rparr>]
      \<and> order_total r = 0"
proof -
  let ?a = "request 1 [(8, 2)]"
  have "\<exists>r s'. save no_faults fresh ?a = (Inr r, s') \<and> id_key r = 1000"
    by (simp add: eval_defs)
  then obtain r s' where
    ev: "save no_faults fresh ?a = (Inr r, s')" and rk: "id_key r = 1000"
    by blast
  have its: "items_or_empty ?a = [\<lparr>product_id = 8, quantity = 2\<rparr>]"
    by (simp add: items_or_empty_def request_def)
  from save_detail_price_is_raw[OF ev] rk
  have "order_details (db s')
          = [\<lparr>od_order_id = 1000, od_product_id = 8, od_quantity = 2, od_price = None\<rparr>]
      \<and> order_total r = 0"
    unfolding its
    by (simp add: detail_of_def fresh_def shop_def discount_amount_of_def spec_subtotal_def
        request_def Let_def)
  with ev show ?thesis by blast
qed

text \<open>
  C9: when the client exists, the items before it pass the first loop, and an item's
  product exists with an absent stock value, \<^verbatim>\<open>save\<close> raises the
  \<^verbatim>\<open>ValueError\<close> of insufficient stock for that item (the comparison of the
  absent stock with the quantity is never evaluated), and the session is as it was.
\<close>

theorem save_absent_stock_is_insufficient:
  assumes "ClientFind \<notin> faults e" and "ProductGet \<notin> faults e"
    and "client_id schema \<in> clients (tx s)"
    and "items_or_empty schema = pre @ it # post"
    and "\<forall>x \<in> set pre. \<exists>product n. products (tx s) (product_id x) = Some product
            \<and> stock product = Some n \<and> quantity x \<le> n"
    and "products (tx s) (product_id it) = Some product" and "stock product = None"
  shows "save e s schema = (Inl (ValueError (product_id it) None (quantity it)), s)"
proof -
  have "check_items e (tx s) (pre @ it # post) Map.empty 0
           = Inl (ValueError (product_id it) None (quantity it))"
    using assms(2,5,6,7) by (rule check_items_append_absent_stock)
  then show ?thesis using assms(1,3,4) by (simp add: save_def)
qed

theorem save_absent_stock_is_insufficient_witness:
  "save no_faults fresh (request 1 [(7, 2), (9, 1), (8, 1)]) = (Inl (ValueError 9 None 1), fresh)
     \<and> stock_at (tx fresh) 9 = None \<and> products (tx fresh) 9 \<noteq> None"
proof -
  let ?a = "request 1 [(7, 2), (9, 1), (8, 1)]"
  have 1: "ClientFind \<notin> faults no_faults" "ProductGet \<notin> faults no_faults"
    by (simp_all add: no_faults_def)
  have 2: "client_id ?a \<in> clients (tx fresh)" by (simp add: request_def fresh_def shop_def)
  have 3: "items_or_empty ?a = [\<lparr>product_id = 7, quantity = 2\<rparr>] @ \<lparr>product_id = 9, quantity = 1\<rparr>
      # [\<lparr>product_id = 8, quantity = 1\<rparr>]"
    by (simp add: items_or_empty_def request_def)
  have 4: "\<forall>x \<in> set [\<lparr>product_id = 7, quantity = 2\<rparr>]. \<exists>product n.
      products (tx fresh) (product_id x) = Some product \<and> stock product = Some n \<and> quantity x \<le> n"
    by (simp add: fresh_def shop_def)
  have 5: "products (tx fresh) (product_id \<lparr>product_id = 9, quantity = 1\<rparr>)
      = Some \<lparr>price = Some 2, stock = None\<rparr>"
    by (simp add: fresh_def shop_def)
  have 6: "stock \<lparr>price = Some 2, stock = None\<rparr> = None" by simp
  from save_absent_stock_is_insufficient[OF 1 2 3 4 5 6]
  show ?thesis by (simp add: stock_at_def fresh_def shop_def)
qed

text \<open>
  C6: when the client and every referenced product exist, and the quantities that the item
  list requests of some product add up to more than the product's stock, \<^verbatim>\<open>save\<close>
  raises the \<^verbatim>\<open>ValueError\<close> of insufficient stock and commits nothing. Each line
  may be within the stock on its own: the decrements go through the one cached reference
  and add up, as the example with two lines of 6 against a stock of 10 shows.
\<close>

theorem save_repeated_lines_compound:
  assumes "ClientFind \<notin> faults e" and "ProductGet \<notin> faults e"
    and "client_id schema \<in> clients (tx s)"
    and "\<forall>it \<in> set (items_or_empty schema). products (tx s) (product_id it) \<noteq> None"
    and "p \<in> product_id ` set (items_or_empty schema)"
    and "stock_at (tx s) p = Some n"
    and "n < requested (items_or_empty schema) p"
  shows "\<exists>q a k s'. save e s schema = (Inl (ValueError q a k), s')
           \<and> db s' = db s \<and> (s' = s \<or> tx s' = db s)"
proof (cases "check_items e (tx s) (items_or_empty schema) Map.empty 0")
  case (Inl err)
  from check_items_errors[OF Inl assms(2,4)] obtain q a k where "err = ValueError q a k" by blast
  with Inl assms(1,3) show ?thesis by (simp add: save_def)
next
  case (Inr res)
  obtain c sub where res: "res = (c, sub)" by (cases res)
  let ?its = "items_or_empty schema"
  from Inr res have ci: "check_items e (tx s) ?its Map.empty 0 = Inr (c, sub)" by simp
  have cache: "\<forall>it \<in> set ?its. c (product_id it) = Some (product_id it)"
    using ci by (rule check_items_cache_empty)
  have stocks: "\<forall>it \<in> set ?its. \<exists>m. stock_at (tx s) (product_id it) = Some m"
    using check_items_stock[OF ci] by (fastforce simp: stock_at_def)
  obtain r1 st1 where us: "update_stock c (tx s) ?its = (r1, st1)"
    by (cases "update_stock c (tx s) ?its")
  have "r1 \<noteq> None"
  proof
    assume "r1 = None"
    with us have "update_stock c (tx s) ?its = (None, st1)" by simp
    from update_stock_success[OF this cache] assms(5) obtain product m where
      "products (tx s) p = Some product" "stock product = Some m" "0 \<le> m - requested ?its p"
      by blast
    with assms(6,7) show False by (simp add: stock_at_def)
  qed
  then obtain err where r1: "r1 = Some err" by auto
  from update_stock_total[OF cache stocks us[unfolded r1]] obtain q a k where
    err: "err = ValueError q a k" by blast
  have "save e s schema = (Inl (ValueError q a k), rollback (s\<lparr>tx := st1\<rparr>))"
    using assms(1,3) ci us r1 err by (simp add: save_def save_try_def Let_def)
  then show ?thesis by (auto simp: rollback_def)
qed

theorem save_repeated_lines_compound_witness:
  "save no_faults fresh (request 1 [(7, 6), (7, 6)]) = (Inl (ValueError 7 (Some (- 2)) 6), fresh)
     \<and> stock_at (tx fresh) 7 = Some 10
     \<and> requested (items_or_empty (request 1 [(7, 6), (7, 6)])) 7 = 12"
proof -
  let ?a = "request 1 [(7, 6), (7, 6)]"
  have 1: "ClientFind \<notin> faults no_faults" "ProductGet \<notin> faults no_faults"
    by (simp_all add: no_faults_def)
  have 2: "client_id ?a \<in> clients (tx fresh)" by (simp add: request_def fresh_def shop_def)
  have 3: "\<forall>it \<in> set (items_or_empty ?a). products (tx fresh) (product_id it) \<noteq> None"
    by (simp add: items_or_empty_def request_def fresh_def shop_def)
  have 4: "7 \<in> product_id ` set (items_or_empty ?a)"
    by (simp add: items_or_empty_def request_def)
  have 5: "stock_at (tx fresh) 7 = Some 10" by (simp add: stock_at_def fresh_def shop_def)
  have 6: "requested (items_or_empty ?a) 7 = 12"
    by (simp add: requested_def items_or_empty_def request_def)
  have 7: "(10::int) < requested (items_or_empty ?a) 7" using 6 by simp
  from save_repeated_lines_compound[OF 1 2 3 4 5 7] obtain q a k s' where
    f: "save no_faults fresh ?a = (Inl (ValueError q a k), s')" by blast
  have "save no_faults fresh ?a = (Inl (ValueError 7 (Some (- 2)) 6), fresh)"
    by (simp add: eval_defs)
  with 5 6 f show ?thesis by simp
qed

text \<open>
  C1, as stated: whatever exception \<^verbatim>\<open>save\<close> raises, the transaction is rolled
  back. It is not: the client lookup and the first loop run before the \<^verbatim>\<open>try\<close>
  block, so a missing client, a missing product and a stock that the first loop finds
  insufficient leave \<^verbatim>\<open>save\<close> without a rollback. On a session with a pending
  change the change is still pending afterwards.
\<close>

theorem save_pre_try_failure_no_rollback:
  "save no_faults dirty (request 2 [(7, 1)]) = (Inl (InstanceNotFoundError Client 2), dirty)
     \<and> save no_faults dirty (request 1 [(99, 1)]) = (Inl (InstanceNotFoundError Product 99), dirty)
     \<and> save no_faults dirty (request 1 [(7, 5)]) = (Inl (ValueError 7 (Some 4) 5), dirty)
     \<and> dirty \<noteq> rollback dirty
     \<and> stock_at (tx dirty) 7 = Some 4 \<and> stock_at (db dirty) 7 = Some 10"
proof -
  have "save no_faults dirty (request 2 [(7, 1)]) = (Inl (InstanceNotFoundError Client 2), dirty)"
    by (simp add: eval_defs)
  moreover have "save no_faults dirty (request 1 [(99, 1)])
      = (Inl (InstanceNotFoundError Product 99), dirty)"
    by (simp add: eval_defs)
  moreover have "save no_faults dirty (request 1 [(7, 5)]) = (Inl (ValueError 7 (Some 4) 5), dirty)"
    by (simp add: eval_defs)
  moreover have "stock_at (tx dirty) 7 = Some 4 \<and> stock_at (db dirty) 7 = Some 10"
    by (simp add: stock_at_def dirty_def shop_def)
  ultimately show ?thesis using dirty_not_rolled_back by simp
qed

text \<open>
  C1, amended: when \<^verbatim>\<open>save\<close> raises, and the exception is not one raised after
  the commit has returned, the committed store is unchanged. Either the exception comes
  from before the \<^verbatim>\<open>try\<close> block (the client lookup or the first loop) and the
  session is exactly as it was, or it is the exception that the \<^verbatim>\<open>try\<close> block
  raised, handed on as it is, and the session has been rolled back to the committed store.
\<close>

theorem save_failure_leaves_store:
  assumes "save e s schema = (Inl err, s')"
    and "err \<noteq> StorageFailure ModelValidate"
  shows "db s' = db s
       \<and> ((s' = s
             \<and> (err = StorageFailure ClientFind
                 \<or> err = InstanceNotFoundError Client (client_id schema)
                 \<or> check_items e (tx s) (items_or_empty schema) Map.empty 0 = Inl err))
           \<or> (\<exists>c sub s1.
                 check_items e (tx s) (items_or_empty schema) Map.empty 0 = Inr (c, sub)
               \<and> save_try e s schema (items_or_empty schema) c (discount_amount_of schema sub)
                    (max (sub - discount_amount_of schema sub) 0)
                    (fst (generate_next_order_number e (tx s))) = (Inl err, s1)
               \<and> s' = rollback s1 \<and> tx s' = db s))"
proof -
  from save_Inl[OF assms(1)] show ?thesis
  proof
    assume "s' = s \<and> (err = StorageFailure ClientFind \<and> ClientFind \<in> faults e
              \<or> err = InstanceNotFoundError Client (client_id schema) \<and> client_id schema \<notin> clients (tx s)
              \<or> check_items e (tx s) (items_or_empty schema) Map.empty 0 = Inl err)"
    then show ?thesis by auto
  next
    assume "\<exists>c sub s1. check_items e (tx s) (items_or_empty schema) Map.empty 0 = Inr (c, sub)
            \<and> save_try e s schema (items_or_empty schema) c (discount_amount_of schema sub)
                 (max (sub - discount_amount_of schema sub) 0)
                 (fst (generate_next_order_number e (tx s))) = (Inl err, s1)
            \<and> s' = rollback s1"
    then obtain c sub s1 where
      ci: "check_items e (tx s) (items_or_empty schema) Map.empty 0 = Inr (c, sub)" and
      st: "save_try e s schema (items_or_empty schema) c (discount_amount_of schema sub)
                 (max (sub - discount_amount_of schema sub) 0)
                 (fst (generate_next_order_number e (tx s))) = (Inl err, s1)" and
      s': "s' = rollback s1" by blast
    from save_try_Inl[OF st assms(2)] have "db s1 = db s" .
    with s' have "db s' = db s" "tx s' = db s" by (simp_all add: rollback_def)
    with ci st s' show ?thesis by blast
  qed
qed

theorem save_failure_leaves_store_witness:
  "save no_faults dirty ((request 1 [(7, 2)])\<lparr>bill_id := Some 42\<rparr>)
      = (Inl (InstanceNotFoundError Bill 42), fresh)
   \<and> InstanceNotFoundError Bill 42 \<noteq> StorageFailure ModelValidate
   \<and> db fresh = db dirty \<and> tx fresh = db dirty \<and> fresh \<noteq> dirty"
proof -
  let ?a = "(request 1 [(7, 2)])\<lparr>bill_id := Some 42\<rparr>"
  have ev: "save no_faults dirty ?a = (Inl (InstanceNotFoundError Bill 42), fresh)"
    by (simp add: eval_defs)
  have ne: "InstanceNotFoundError Bill 42 \<noteq> StorageFailure ModelValidate" by simp
  from save_failure_leaves_store[OF ev ne]
  have "db fresh = db dirty \<and> (fresh = dirty \<or> tx fresh = db dirty)" by auto
  moreover have "fresh \<noteq> dirty" using dirty_not_rolled_back rollback_dirty by simp
  ultimately show ?thesis using ev by simp
qed



text \<open>
  C8: \<^verbatim>\<open>update\<close> changes no product, no bill, no detail row and nothing committed.
  A client id that does not exist, and a supplied bill id that does not exist, make it raise
  \<^verbatim>\<open>InstanceNotFoundError\<close> with the session as it was. Otherwise the order's
  columns are overwritten with the schema's values, field by field: the total is the total
  the schema carries, not one computed from items.
\<close>

theorem update_touches_no_stock:
  assumes "update e s k schema = (r, s')"
  shows "products (tx s') = products (tx s) \<and> db s' = db s
       \<and> bills (tx s') = bills (tx s) \<and> order_details (tx s') = order_details (tx s)
       \<and> (\<forall>err. r = Inl err \<longrightarrow> s' = s)
       \<and> (ClientFind \<notin> faults e \<and> client_id schema \<notin> clients (tx s)
            \<longrightarrow> r = Inl (InstanceNotFoundError Client (client_id schema)))
       \<and> (\<forall>b. ClientFind \<notin> faults e \<and> client_id schema \<in> clients (tx s) \<and> BillGet \<notin> faults e
              \<and> bill_id schema = Some b \<and> map_of (bills (tx s)) b = None
            \<longrightarrow> r = Inl (InstanceNotFoundError Bill b))
       \<and> (\<forall>order. r = Inr order \<longrightarrow>
              order_total order = total schema \<and> order_date order = date schema
            \<and> order_delivery_method order = delivery_method schema
            \<and> order_status order = status schema
            \<and> order_client_id order = client_id schema \<and> order_bill_id order = bill_id schema
            \<and> orders (tx s') = map (\<lambda>row. if id_key row = k then order else row) (orders (tx s)))"
proof (cases "update e s k schema = base_update s k schema")
  case True
  with assms have bu: "base_update s k schema = (r, s')" by simp
  have v1: "client_id schema \<in> clients (tx s)" if "ClientFind \<notin> faults e"
    using that True bu base_update_Inl[of s k schema]
    by (cases r) (auto simp: update_def split: if_splits dest: base_update_Inr)
  have v2: "map_of (bills (tx s)) b \<noteq> None"
    if "ClientFind \<notin> faults e" "client_id schema \<in> clients (tx s)" "BillGet \<notin> faults e"
       "bill_id schema = Some b" for b
    using that True bu base_update_Inl[of s k schema]
    by (cases r) (auto simp: update_def split: if_splits dest: base_update_Inr)
  from base_update_frame[OF bu] base_update_Inl[of s k schema] base_update_Inr[of s k schema] bu v1 v2
  show ?thesis by auto
next
  case False
  with assms have "s' = s"
    by (auto simp: update_def split: if_splits option.splits)
  moreover from False assms have "\<exists>err. r = Inl err"
    by (auto simp: update_def split: if_splits option.splits)
  moreover from False assms have "ClientFind \<notin> faults e \<and> client_id schema \<notin> clients (tx s)
            \<longrightarrow> r = Inl (InstanceNotFoundError Client (client_id schema))"
    by (auto simp: update_def split: if_splits option.splits)
  moreover from False assms have "\<forall>b. ClientFind \<notin> faults e \<and> client_id schema \<in> clients (tx s)
       \<and> BillGet \<notin> faults e \<and> bill_id schema = Some b \<and> map_of (bills (tx s)) b = None
            \<longrightarrow> r = Inl (InstanceNotFoundError Bill b)"
    by (auto simp: update_def split: if_splits option.splits)
  ultimately show ?thesis by auto
qed


theorem update_touches_no_stock_witness:
  "(\<exists>order s'. update no_faults placed 5000 ((request 1 [(7, 2)])\<lparr>total := 42\<rparr>) = (Inr order, s')
       \<and> order_total order = 42 \<and> products (tx s') = products (tx placed) \<and> db s' = db placed
       \<and> stock_at (tx s') 7 = Some 10)
   \<and> update no_faults placed 5000 (request 2 [(7, 2)])
        = (Inl (InstanceNotFoundError Client 2), placed)
   \<and> update no_faults placed 5000 ((request 1 [(7, 2)])\<lparr>bill_id := Some 42\<rparr>)
        = (Inl (InstanceNotFoundError Bill 42), placed)"
proof -
  let ?a = "(request 1 [(7, 2)])\<lparr>total := 42\<rparr>"
  have "\<exists>order s'. update no_faults placed 5000 ?a = (Inr order, s')"
    by (simp add: update_def base_update_def no_faults_def placed_def old_orders_def shop_def
        request_def Let_def)
  then obtain order s' where ev: "update no_faults placed 5000 ?a = (Inr order, s')" by blast
  from update_touches_no_stock[OF ev]
  have "order_total order = 42 \<and> products (tx s') = products (tx placed) \<and> db s' = db placed"
    by (simp add: request_def)
  moreover from this have "stock_at (tx s') 7 = Some 10"
    by (simp add: stock_at_def placed_def old_orders_def shop_def)
  moreover have "update no_faults placed 5000 (request 2 [(7, 2)])
        = (Inl (InstanceNotFoundError Client 2), placed)"
    by (simp add: update_def no_faults_def placed_def old_orders_def shop_def request_def)
  moreover have "update no_faults placed 5000 ((request 1 [(7, 2)])\<lparr>bill_id := Some 42\<rparr>)
        = (Inl (InstanceNotFoundError Bill 42), placed)"
    by (simp add: update_def no_faults_def placed_def old_orders_def shop_def request_def)
  ultimately show ?thesis using ev by blast
qed

end
